theory Spec2Isabelle
  imports Main
begin

section \<open>Values of the runtime\<close>

text \<open>
  A value that \<^verbatim>\<open>JSON.parse\<close> can produce. An object keeps its properties as
  an association list in insertion order. A number is kept as the exact decimal
  \<open>m * 10 ^ e\<close> of its literal (\<open>JNumber m e\<close>); the runtime rounds it to a double,
  which nothing in the code below reads.
\<close>

datatype json =
    JNull
  | JBoolean bool
  | JNumber int int
  | JString string
  | JArray "json list"
  | JObject "(string \<times> json) list"

text \<open>A thrown value. \<open>Inl e\<close> is a \<^verbatim>\<open>throw\<close> (or a rejected promise), \<open>Inr v\<close> a normal return.\<close>

datatype exception = Exception string

text \<open>
  \<^verbatim>\<open>try { body } catch (e) { handler }\<close> around a computation without side effects.
\<close>

definition try_catch :: "exception + 'a \<Rightarrow> (exception \<Rightarrow> exception + 'a) \<Rightarrow> exception + 'a" where
  "try_catch body handler = (case body of Inl e \<Rightarrow> handler e | Inr v \<Rightarrow> Inr v)"

text \<open>
  An effectful, fallible computation over a state \<open>'st\<close>: it returns its outcome
  together with the state it leaves behind (an exception does not undo earlier writes).
\<close>

type_synonym ('st, 'a) eff = "'st \<Rightarrow> (exception + 'a) \<times> 'st"

definition try_catch_eff ::
  "('st, 'a) eff \<Rightarrow> (exception \<Rightarrow> ('st, 'a) eff) \<Rightarrow> ('st, 'a) eff" where
  "try_catch_eff body handler st =
     (case body st of
        (Inl e, st') \<Rightarrow> handler e st'
      | (Inr v, st') \<Rightarrow> (Inr v, st'))"

section \<open>The investigation hook (use\_investigation/index.tsx)\<close>

subsection \<open>Data\<close>

text \<open>
  Modelled from the spec: the declarations of \<^verbatim>\<open>InvestigateWidget\<close> and
  \<^verbatim>\<open>Investigation\<close> (\<^verbatim>\<open>../../../common\<close>) are not among the sources. The fields
  are those of the spec's data model. \<open>loading\<close> is an optional property: \<open>None\<close> is
  the property being absent from the object.
\<close>

record widget =
  widget_id :: string
  widget_type :: string
  parameters :: json
  loading :: "bool option"

record investigation_note =
  note_id :: string
  content :: string

record investigation =
  investigation_id :: string
  title :: string
  globalParameters :: json
  items :: "widget list"
  investigation_notes :: "investigation_note list"

text \<open>What \<^verbatim>\<open>notifications.showErrorDialog\<close> is called with.\<close>

record error_dialog =
  dialog_title :: string
  dialog_error :: exception

text \<open>
  The mutable state the hook closes over: the investigation store (its code,
  \<^verbatim>\<open>investigation_store\<close>, is not among the sources, so it is any type \<open>'s\<close>), the
  stored list \<^verbatim>\<open>investigations\<close> (which \<^verbatim>\<open>investigationsRef.current\<close> mirrors), the
  dialogs shown so far, and the number of UUIDs drawn from \<^verbatim>\<open>v4\<close>.
\<close>

record 's hook_state =
  investigationStore :: 's
  investigations :: "investigation list"
  errorDialogs :: "error_dialog list"
  v4_calls :: nat

text \<open>
  Modelled from the spec: the notification side channel fires a user-visible error
  with a title and the underlying error object; it is used for reporting only.
\<close>

definition showErrorDialog :: "error_dialog \<Rightarrow> ('s hook_state, unit) eff" where
  "showErrorDialog dialog st = (Inr (), st\<lparr>errorDialogs := errorDialogs st @ [dialog]\<rparr>)"

subsection \<open>addItem (lines 79-91)\<close>

text \<open>
  \<open>v4 n\<close> is the UUID that the \<open>n\<close>-th call of \<^verbatim>\<open>v4()\<close> returns. \<open>store_addItem\<close> is
  \<^verbatim>\<open>investigationStore.addItem\<close>: any function that, from the id, the creation
  payload and the store, yields the settled promise (rejected or fulfilled) and the
  store it leaves.
\<close>

definition addItem ::
  "(nat \<Rightarrow> string) \<Rightarrow> (string \<Rightarrow> 'c \<Rightarrow> ('s, unit) eff) \<Rightarrow> 'c \<Rightarrow> ('s hook_state, unit) eff" where
  "addItem v4 store_addItem widget =
     try_catch_eff
       (\<lambda>st.
          let id = v4 (v4_calls st);
              st1 = st\<lparr>v4_calls := Suc (v4_calls st)\<rparr>;
              (settled, store') = store_addItem id widget (investigationStore st1)
          in (settled, st1\<lparr>investigationStore := store'\<rparr>))
       (\<lambda>error. showErrorDialog \<lparr>dialog_title = ''Failed to add widget'', dialog_error = error\<rparr>)"

subsection \<open>The persistence sync (lines 177-230)\<close>

text \<open>
  Modelled from the spec: \<^verbatim>\<open>use_local_storage\<close> is not among the sources.
  \<open>setInvestigations next\<close> is \<open>Some e\<close> when the write throws \<open>e\<close> (storage quota,
  for one) and \<open>None\<close> when it stores \<open>next\<close>, which is then the stored item.
\<close>

definition setStoredItem ::
  "(investigation list \<Rightarrow> exception option) \<Rightarrow> investigation list \<Rightarrow> ('s hook_state, unit) eff" where
  "setStoredItem setInvestigations next st =
     (case setInvestigations next of
        Some e \<Rightarrow> (Inl e, st)
      | None \<Rightarrow> (Inr (), st\<lparr>investigations := next\<rparr>))"

definition attemptToStoreInvestigations ::
  "(investigation list \<Rightarrow> exception option) \<Rightarrow> investigation list \<Rightarrow> ('s hook_state, unit) eff" where
  "attemptToStoreInvestigations setInvestigations next =
     try_catch_eff
       (setStoredItem setInvestigations next)
       (\<lambda>error. showErrorDialog
          \<lparr>dialog_title = ''Could not save investigations to local storage'',
           dialog_error = error\<rparr>)"

text \<open>Lines 198-204: every item without its \<^verbatim>\<open>loading\<close> property.\<close>

definition toSerialize :: "investigation \<Rightarrow> investigation" where
  "toSerialize investigationFromStore =
     investigationFromStore
       \<lparr>items := map (\<lambda>item. item\<lparr>loading := None\<rparr>) (items investigationFromStore)\<rparr>"

text \<open>The callback given to \<^verbatim>\<open>investigation$.subscribe\<close> (lines 191-225).\<close>

definition investigation_subscriber ::
  "(investigation list \<Rightarrow> exception option) \<Rightarrow> investigation \<Rightarrow> ('s hook_state, unit) eff" where
  "investigation_subscriber setInvestigations investigationFromStore st =
     (let isEmpty = (length (items investigationFromStore) = 0) in
      if isEmpty then (Inr (), st)
      else
        let hasStoredCurrentInvestigation =
              (find (\<lambda>investigationAtIndex.
                       investigation_id investigationAtIndex = investigation_id investigationFromStore)
                 (investigations st) \<noteq> None)
        in
          if \<not> hasStoredCurrentInvestigation then
            attemptToStoreInvestigations setInvestigations
              (rev (investigations st @ [toSerialize investigationFromStore])) st
          else
            attemptToStoreInvestigations setInvestigations
              (rev (map (\<lambda>investigationAtIndex.
                           if investigation_id investigationAtIndex = investigation_id investigationFromStore
                           then toSerialize investigationFromStore
                           else investigationAtIndex)
                      (investigations st))) st)"

subsection \<open>The render bindings (lines 97-151)\<close>

text \<open>
  A React ref: an object whose one own property is \<^verbatim>\<open>current\<close>.
  \<open>Object_keys_ref r\<close> is \<^verbatim>\<open>Object.keys(r)\<close>, the ref's own property names.
\<close>

record 'a ref =
  current :: 'a

definition Object_keys_ref :: "'a ref \<Rightarrow> string list" where
  "Object_keys_ref r = [''current'']"

text \<open>
  An entry of the widget-type catalog, read here through its \<^verbatim>\<open>type\<close> only, and
  the component built for an item: a closure over the item's id (for
  \<^verbatim>\<open>onWidgetAdd\<close> and \<^verbatim>\<open>onDelete\<close>) and over the catalog entry found for the item's
  type (\<open>None\<close> when \<^verbatim>\<open>find\<close> returns \<^verbatim>\<open>undefined\<close>).
\<close>

record widget_definition =
  definition_type :: string

record component =
  component_id :: string
  component_definition :: "widget_definition option"

record item_with_context =
  item :: widget
  Component :: component

type_synonym components = "string \<rightharpoonup> component"

text \<open>
  The callback of \<^verbatim>\<open>items.map\<close> (lines 105-144). It writes to
  \<^verbatim>\<open>widgetComponentsById.current\<close> and to \<^verbatim>\<open>unusedComponentIds\<close>, so both are threaded
  through; \<^verbatim>\<open>pull\<close> removes every occurrence of the id.
\<close>

definition with_context ::
  "widget_definition list \<Rightarrow> widget \<Rightarrow> components \<times> string list
     \<Rightarrow> item_with_context \<times> (components \<times> string list)" where
  "with_context widgetDefinitions it st =
     (case st of (byId, unusedComponentIds) \<Rightarrow>
        (case byId (widget_id it) of
           Some cached \<Rightarrow>
             (\<lparr>item = it, Component = cached\<rparr>,
              (byId, removeAll (widget_id it) unusedComponentIds))
         | None \<Rightarrow>
             (let widgetDefinition =
                    find (\<lambda>definition. definition_type definition = widget_type it) widgetDefinitions;
                  created = \<lparr>component_id = widget_id it, component_definition = widgetDefinition\<rparr>
              in (\<lparr>item = it, Component = created\<rparr>,
                  (byId(widget_id it \<mapsto> created), removeAll (widget_id it) unusedComponentIds)))))"

fun map_with_context ::
  "widget_definition list \<Rightarrow> widget list \<Rightarrow> components \<times> string list
     \<Rightarrow> item_with_context list \<times> (components \<times> string list)" where
  "map_with_context widgetDefinitions [] st = ([], st)"
| "map_with_context widgetDefinitions (it # rest) st =
     (case with_context widgetDefinitions it st of
        (first, st') \<Rightarrow>
          (case map_with_context widgetDefinitions rest st' of
             (others, st'') \<Rightarrow> (first # others, st'')))"

text \<open>
  The body of the \<^verbatim>\<open>useMemo\<close> (lines 101-151). \<open>investigation\<close> is \<open>None\<close> while the
  observable has published nothing. \<^verbatim>\<open>unusedComponentIds\<close> starts as the keys of the ref
  (line 102 reads \<^verbatim>\<open>Object.keys(widgetComponentsById)\<close>, not the keys of its
  \<^verbatim>\<open>current\<close>); the last step deletes from the cache every id left in it.
\<close>

definition itemsWithContext ::
  "widget_definition list \<Rightarrow> investigation option \<Rightarrow> components ref
     \<Rightarrow> item_with_context list \<times> components ref" where
  "itemsWithContext widgetDefinitions investigation widgetComponentsById =
     (let unusedComponentIds = Object_keys_ref widgetComponentsById in
      case map_with_context widgetDefinitions
             (case investigation of None \<Rightarrow> [] | Some i \<Rightarrow> items i)
             (current widgetComponentsById, unusedComponentIds) of
        (nextItemsWithContext, (byId, unused)) \<Rightarrow>
          (nextItemsWithContext,
           widgetComponentsById\<lparr>current := fold (\<lambda>id m. m(id := None)) unused byId\<rparr>))"

section \<open>The logs sample input (parseLogsContent and its caller)\<close>

subsection \<open>String and array methods of the runtime\<close>

text \<open>
  Texts are \<open>string\<close>s, one \<open>char\<close> per character of the file, for the characters
  up to U+00FF (a \<open>char\<close> is eight bits); the characters \<^verbatim>\<open>trim\<close> removes are the
  white space and line terminators among them.
\<close>

fun String_split :: "char \<Rightarrow> string \<Rightarrow> string list" where
  "String_split separator [] = [[]]"
| "String_split separator (c # cs) =
     (if c = separator then [] # String_split separator cs
      else (case String_split separator cs of
              [] \<Rightarrow> [[c]]
            | line # lines \<Rightarrow> (c # line) # lines))"

definition is_trimmed :: "char \<Rightarrow> bool" where
  "is_trimmed c = (c \<in> set [CHR 0x09, CHR 0x0A, CHR 0x0B, CHR 0x0C, CHR 0x0D, CHR 0x20, CHR 0xA0])"

definition String_trim :: "string \<Rightarrow> string" where
  "String_trim s = rev (dropWhile is_trimmed (rev (dropWhile is_trimmed s)))"

text \<open>
  \<^verbatim>\<open>array.map(f)\<close> with a callback that may throw: the first exception ends the
  loop and leaves \<^verbatim>\<open>map\<close>.
\<close>

fun Array_map :: "('a \<Rightarrow> exception + 'b) \<Rightarrow> 'a list \<Rightarrow> exception + 'b list" where
  "Array_map f [] = Inr []"
| "Array_map f (x # xs) =
     (case f x of
        Inl e \<Rightarrow> Inl e
      | Inr y \<Rightarrow> (case Array_map f xs of Inl e \<Rightarrow> Inl e | Inr ys \<Rightarrow> Inr (y # ys)))"

text \<open>
  \<^verbatim>\<open>isPlainObject\<close> of lodash and \<^verbatim>\<open>Array.isArray\<close>, on the values that
  \<^verbatim>\<open>JSON.parse\<close> produces: its objects are plain objects, nothing else is.
\<close>

fun isPlainObject :: "json \<Rightarrow> bool" where
  "isPlainObject (JObject properties) = True"
| "isPlainObject other = False"

fun Array_isArray :: "json \<Rightarrow> bool" where
  "Array_isArray (JArray elements) = True"
| "Array_isArray other = False"

subsection \<open>parseLogsContent (lines 286-341)\<close>

definition MaxLogsSampleRows :: nat where
  "MaxLogsSampleRows = 10"

text \<open>
  Modelled from the spec: \<^verbatim>\<open>./translations\<close> is not among the sources; the five
  messages of \<^verbatim>\<open>i18n.LOGS_SAMPLE_ERROR\<close> are the five error categories, and
  \<^verbatim>\<open>i18n.LOGS_SAMPLE_TRUNCATED(n)\<close> is the text of the truncation toast.
\<close>

datatype LOGS_SAMPLE_ERROR = CAN_NOT_READ | CAN_NOT_PARSE | NOT_ARRAY | EMPTY | NOT_OBJECT


text \<open>The returned object; an absent property is \<open>None\<close>.\<close>

record parse_result =
  error :: "LOGS_SAMPLE_ERROR option"
  isTruncated :: "bool option"
  logsSampleParsed :: "string list option"

text \<open>
  The value of \<^verbatim>\<open>parsedContent\<close> after the \<^verbatim>\<open>try\<close> statement (lines 297-320), or
  \<open>Inl\<close> the exception of the inner \<^verbatim>\<open>catch\<close>. \<open>JSON_parse\<close> is the runtime's
  \<^verbatim>\<open>JSON.parse\<close>: any function from a text to a value or an exception. The array that
  \<^verbatim>\<open>map\<close> returns is \<open>JArray\<close> of the parsed lines.
\<close>

definition parsedContent :: "(string \<Rightarrow> exception + json) \<Rightarrow> string \<Rightarrow> exception + json" where
  "parsedContent JSON_parse fileContent =
     try_catch
       (case Array_map JSON_parse
               (filter (\<lambda>line. String_trim line \<noteq> []) (String_split CHR 0x0A fileContent)) of
          Inl e \<Rightarrow> Inl e
        | Inr parsed \<Rightarrow>
            (if length parsed = 1 \<and> Array_isArray (hd parsed)
             then Inr (hd parsed)
             else Inr (JArray parsed)))
       (\<lambda>parseNDJSONError. JSON_parse fileContent)"

text \<open>
  \<open>fileContent\<close> is \<open>None\<close> for \<^verbatim>\<open>undefined\<close>. \<open>JSON_stringify\<close> is the runtime's
  \<^verbatim>\<open>JSON.stringify\<close> on parsed values. The result is \<open>Inr\<close> a returned object, or
  \<open>Inl\<close> an exception that leaves the function.
\<close>

definition parseLogsContent ::
  "(string \<Rightarrow> exception + json) \<Rightarrow> (json \<Rightarrow> string) \<Rightarrow> string option
     \<Rightarrow> exception + parse_result" where
  "parseLogsContent JSON_parse JSON_stringify fileContent =
     (case fileContent of
        None \<Rightarrow> Inr \<lparr>error = Some CAN_NOT_READ, isTruncated = None, logsSampleParsed = None\<rparr>
      | Some fileText \<Rightarrow>
          (case parsedContent JSON_parse fileText of
             Inl parseJSONError \<Rightarrow>
               Inr \<lparr>error = Some CAN_NOT_PARSE, isTruncated = None, logsSampleParsed = None\<rparr>
           | Inr (JArray rows) \<Rightarrow>
               (if length rows = 0 then
                  Inr \<lparr>error = Some EMPTY, isTruncated = None, logsSampleParsed = None\<rparr>
                else
                  let truncated = (length rows > MaxLogsSampleRows);
                      kept = (if truncated then take MaxLogsSampleRows rows else rows)
                  in if list_ex (\<lambda>log. \<not> isPlainObject log) kept then
                       Inr \<lparr>error = Some NOT_OBJECT, isTruncated = None, logsSampleParsed = None\<rparr>
                     else
                       Inr \<lparr>error = None, isTruncated = Some truncated,
                            logsSampleParsed = Some (map JSON_stringify kept)\<rparr>)
           | Inr other \<Rightarrow>
               Inr \<lparr>error = Some NOT_ARRAY, isTruncated = None, logsSampleParsed = None\<rparr>))"

subsection \<open>The caller: the onload handler of onChangeLogsSample (lines 362-380)\<close>



section \<open>A model of the runtime's JSON functions\<close>

text \<open>
  \<^verbatim>\<open>JSON.parse\<close> and \<^verbatim>\<open>JSON.stringify\<close> belong to the runtime, and
  \<open>parseLogsContent\<close> above takes them as parameters: what is proved of it in general
  holds for any behaviour of the two. The functions below are a model of them on which
  the examples are computed: a reader of the JSON grammar (ECMA-404) and a printer.
\<close>

subsection \<open>JSON.parse\<close>

text \<open>
  \<open>json_string\<close> reads a string literal after its opening quote and returns its
  characters and the text after the closing quote; a \<^verbatim>\<open>\u\<close> escape is decoded when
  it names a character below U+0100 (a \<open>char\<close> is eight bits). \<open>json_number\<close> reads
  a number literal: sign, integer digits, fraction, exponent. \<open>json_value\<close>,
  \<open>json_elements\<close> and \<open>json_members\<close> descend through values, the elements of an
  array after its bracket and the members of an object after its brace. Their first
  argument bounds the depth of the calls; \<open>JSON_parse\<close> gives them the length of the
  text and one more, which is always enough (\<open>JSON_parse_fuel\<close> below).
\<close>

definition is_json_space :: "char \<Rightarrow> bool" where
  "is_json_space c = (c \<in> set [CHR 0x20, CHR 0x09, CHR 0x0A, CHR 0x0D])"

definition char_code :: "char \<Rightarrow> nat" where
  "char_code c = of_char c"

definition is_digit :: "char \<Rightarrow> bool" where
  "is_digit c = (48 \<le> char_code c \<and> char_code c \<le> 57)"

definition digits_value :: "string \<Rightarrow> nat" where
  "digits_value ds = foldl (\<lambda>n d. 10 * n + (char_code d - 48)) 0 ds"

definition hex_value :: "char \<Rightarrow> nat option" where
  "hex_value c =
     (if is_digit c then Some (char_code c - 48)
      else if 97 \<le> char_code c \<and> char_code c \<le> 102 then Some (char_code c - 87)
      else if 65 \<le> char_code c \<and> char_code c \<le> 70 then Some (char_code c - 55)
      else None)"

definition simple_escape :: "char \<Rightarrow> char option" where
  "simple_escape e =
     map_of [(CHR 0x22, CHR 0x22), (CHR 0x5C, CHR 0x5C), (CHR ''/'', CHR ''/''),
             (CHR ''b'', CHR 0x08), (CHR ''f'', CHR 0x0C), (CHR ''n'', CHR 0x0A),
             (CHR ''r'', CHR 0x0D), (CHR ''t'', CHR 0x09)] e"

fun json_string :: "string \<Rightarrow> (string \<times> string) option" where
  "json_string [] = None"
| "json_string (c # cs) =
     (if c = CHR 0x22 then Some ([], cs)
      else if c = CHR 0x5C then
        (case cs of
           [] \<Rightarrow> None
         | e # r \<Rightarrow>
             (if e = CHR ''u'' then
                (case r of
                   h1 # h2 # h3 # h4 # r' \<Rightarrow>
                     (case (hex_value h1, hex_value h2, hex_value h3, hex_value h4) of
                        (Some a, Some b, Some c, Some d) \<Rightarrow>
                          (if a = 0 \<and> b = 0
                           then map_option (\<lambda>(s, t). (char_of (16 * c + d) # s, t)) (json_string r')
                           else None)
                      | _ \<Rightarrow> None)
                 | _ \<Rightarrow> None)
              else
                (case simple_escape e of
                   None \<Rightarrow> None
                 | Some x \<Rightarrow> map_option (\<lambda>(s, t). (x # s, t)) (json_string r))))
      else if char_code c < 32 then None
      else map_option (\<lambda>(s, t). (c # s, t)) (json_string cs))"

definition json_digits :: "string \<Rightarrow> string \<times> string" where
  "json_digits s = (takeWhile is_digit s, dropWhile is_digit s)"

definition json_fraction :: "string \<Rightarrow> (string \<times> string) option" where
  "json_fraction s =
     (case s of
        [] \<Rightarrow> Some ([], s)
      | c # cs \<Rightarrow>
          (if c = CHR ''.'' then
             (case json_digits cs of
                (digits, t) \<Rightarrow> if digits = [] then None else Some (digits, t))
           else Some ([], s)))"

definition json_exponent :: "string \<Rightarrow> (int \<times> string) option" where
  "json_exponent s =
     (case s of
        [] \<Rightarrow> Some (0, s)
      | c # cs \<Rightarrow>
          (if c = CHR ''e'' \<or> c = CHR ''E'' then
             (let negative = (take 1 cs = ''-'');
                  signed = (take 1 cs = ''-'' \<or> take 1 cs = ''+'')
              in case json_digits (if signed then drop 1 cs else cs) of
                   (digits, t) \<Rightarrow>
                     if digits = [] then None
                     else Some (if negative then - int (digits_value digits)
                                else int (digits_value digits), t))
           else Some (0, s)))"

definition json_number :: "string \<Rightarrow> (json \<times> string) option" where
  "json_number s =
     (let negative = (take 1 s = ''-'') in
      case json_digits (if negative then drop 1 s else s) of
        (int_digits, s2) \<Rightarrow>
          if int_digits = [] \<or> (length int_digits > 1 \<and> take 1 int_digits = ''0'') then None
          else
            (case json_fraction s2 of
               None \<Rightarrow> None
             | Some (fraction_digits, s3) \<Rightarrow>
                 (case json_exponent s3 of
                    None \<Rightarrow> None
                  | Some (exponent, s4) \<Rightarrow>
                      let mantissa = int (digits_value (int_digits @ fraction_digits)) in
                      Some (JNumber (if negative then - mantissa else mantissa)
                              (exponent - int (length fraction_digits)), s4))))"

definition json_literal :: "string \<Rightarrow> (json \<times> string) option" where
  "json_literal s =
     (if take 4 s = ''true'' then Some (JBoolean True, drop 4 s)
      else if take 5 s = ''false'' then Some (JBoolean False, drop 5 s)
      else if take 4 s = ''null'' then Some (JNull, drop 4 s)
      else None)"

text \<open>Assigning a property: replaces the value of a key already there, else appends.\<close>

fun set_property :: "string \<Rightarrow> json \<Rightarrow> (string \<times> json) list \<Rightarrow> (string \<times> json) list" where
  "set_property k v [] = [(k, v)]"
| "set_property k v ((k', v') # ps) =
     (if k = k' then (k, v) # ps else (k', v') # set_property k v ps)"

fun json_value :: "nat \<Rightarrow> string \<Rightarrow> (json \<times> string) option"
  and json_elements :: "nat \<Rightarrow> string \<Rightarrow> (json list \<times> string) option"
  and json_members :: "nat \<Rightarrow> string \<Rightarrow> ((string \<times> json) list \<times> string) option" where
  "json_value 0 s = None"
| "json_value (Suc n) s =
     (case dropWhile is_json_space s of
        [] \<Rightarrow> None
      | c # cs \<Rightarrow>
          (if c = CHR ''['' then
             (case dropWhile is_json_space cs of
                [] \<Rightarrow> None
              | d # ds \<Rightarrow>
                  (if d = CHR '']'' then Some (JArray [], ds)
                   else map_option (\<lambda>(elements, t). (JArray elements, t)) (json_elements n cs)))
           else if c = CHR ''{'' then
             (case dropWhile is_json_space cs of
                [] \<Rightarrow> None
              | d # ds \<Rightarrow>
                  (if d = CHR ''}'' then Some (JObject [], ds)
                   else map_option
                          (\<lambda>(members, t). (JObject (foldl (\<lambda>ps (k, v). set_property k v ps) [] members), t))
                          (json_members n cs)))
           else if c = CHR 0x22 then map_option (\<lambda>(str, t). (JString str, t)) (json_string cs)
           else if c = CHR ''-'' \<or> is_digit c then json_number (c # cs)
           else json_literal (c # cs)))"
| "json_elements 0 s = None"
| "json_elements (Suc n) s =
     (case json_value n s of
        None \<Rightarrow> None
      | Some (v, t) \<Rightarrow>
          (case dropWhile is_json_space t of
             [] \<Rightarrow> None
           | c # cs \<Rightarrow>
               (if c = CHR '','' then map_option (\<lambda>(vs, u). (v # vs, u)) (json_elements n cs)
                else if c = CHR '']'' then Some ([v], cs)
                else None)))"
| "json_members 0 s = None"
| "json_members (Suc n) s =
     (case dropWhile is_json_space s of
        [] \<Rightarrow> None
      | q # qs \<Rightarrow>
          (if q \<noteq> CHR 0x22 then None
           else
             (case json_string qs of
                None \<Rightarrow> None
              | Some (k, t) \<Rightarrow>
                  (case dropWhile is_json_space t of
                     [] \<Rightarrow> None
                   | c # cs \<Rightarrow>
                       (if c \<noteq> CHR '':'' then None
                        else
                          (case json_value n cs of
                             None \<Rightarrow> None
                           | Some (v, u) \<Rightarrow>
                               (case dropWhile is_json_space u of
                                  [] \<Rightarrow> None
                                | d # ds \<Rightarrow>
                                    (if d = CHR '','' then
                                       map_option (\<lambda>(ms, w). ((k, v) # ms, w)) (json_members n ds)
                                     else if d = CHR ''}'' then Some ([(k, v)], ds)
                                     else None))))))))"

definition JSON_parse :: "string \<Rightarrow> exception + json" where
  "JSON_parse s =
     (case json_value (Suc (length s)) s of
        None \<Rightarrow> Inl (Exception ''SyntaxError'')
      | Some (v, rest) \<Rightarrow>
          (if dropWhile is_json_space rest = [] then Inr v
           else Inl (Exception ''SyntaxError'')))"

subsection \<open>JSON.stringify\<close>

text \<open>
  The text \<^verbatim>\<open>JSON.stringify\<close> gives for a parsed value: no white space, the
  properties in their stored order, strings quoted with the short escapes. A number
  is printed in plain decimal notation (the runtime switches to exponent notation
  from \<open>10 ^ 21\<close> and below \<open>10 ^ - 6\<close>).
\<close>

fun digits_of :: "nat \<Rightarrow> string" where
  "digits_of n =
     (if n < 10 then [char_of (48 + n)]
      else digits_of (n div 10) @ [char_of (48 + n mod 10)])"

definition number_text :: "int \<Rightarrow> int \<Rightarrow> string" where
  "number_text m e =
     (let digits = digits_of (nat \<bar>m\<bar>);
          sign = (if m < 0 then ''-'' else [])
      in if m = 0 then ''0''
         else if 0 \<le> e then sign @ digits @ replicate (nat e) CHR ''0''
         else
           let places = nat (- e);
               padded = replicate (Suc places - length digits) CHR ''0'' @ digits;
               whole = take (length padded - places) padded;
               fraction = rev (dropWhile (\<lambda>c. c = CHR ''0'')
                                 (rev (drop (length padded - places) padded)))
           in sign @ whole @ (if fraction = [] then [] else ''.'' @ fraction))"

definition quote_char :: "char \<Rightarrow> string" where
  "quote_char c =
     (if c = CHR 0x22 then [CHR 0x5C, CHR 0x22]
      else if c = CHR 0x5C then [CHR 0x5C, CHR 0x5C]
      else if c = CHR 0x08 then [CHR 0x5C, CHR ''b'']
      else if c = CHR 0x0C then [CHR 0x5C, CHR ''f'']
      else if c = CHR 0x0A then [CHR 0x5C, CHR ''n'']
      else if c = CHR 0x0D then [CHR 0x5C, CHR ''r'']
      else if c = CHR 0x09 then [CHR 0x5C, CHR ''t'']
      else if char_code c < 32 then
        [CHR 0x5C, CHR ''u'', CHR ''0'', CHR ''0'',
         (if char_code c < 16 then CHR ''0'' else CHR ''1''),
         (let d = char_code c mod 16 in if d < 10 then char_of (48 + d) else char_of (87 + d))]
      else [c])"

definition quote :: "string \<Rightarrow> string" where
  "quote s = [CHR 0x22] @ concat (map quote_char s) @ [CHR 0x22]"

fun join :: "string \<Rightarrow> string list \<Rightarrow> string" where
  "join separator [] = []"
| "join separator [x] = x"
| "join separator (x # y # ys) = x @ separator @ join separator (y # ys)"

fun JSON_stringify :: "json \<Rightarrow> string"
  and stringify_elements :: "json list \<Rightarrow> string list"
  and stringify_properties :: "(string \<times> json) list \<Rightarrow> string list" where
  "JSON_stringify JNull = ''null''"
| "JSON_stringify (JBoolean b) = (if b then ''true'' else ''false'')"
| "JSON_stringify (JNumber m e) = number_text m e"
| "JSON_stringify (JString s) = quote s"
| "JSON_stringify (JArray elements) = ''['' @ join '','' (stringify_elements elements) @ '']''"
| "JSON_stringify (JObject properties) =
     ''{'' @ join '','' (stringify_properties properties) @ ''}''"
| "stringify_elements [] = []"
| "stringify_elements (v # vs) = JSON_stringify v # stringify_elements vs"
| "stringify_properties [] = []"
| "stringify_properties ((k, v) # ps) =
     (quote k @ '':'' @ JSON_stringify v) # stringify_properties ps"

section \<open>Example values\<close>

definition widget1 :: widget where
  "widget1 = \<lparr>widget_id = ''w1'', widget_type = ''chart'', parameters = JNull, loading = Some False\<rparr>"

definition widget2 :: widget where
  "widget2 = \<lparr>widget_id = ''w2'', widget_type = ''chart'', parameters = JNull, loading = Some True\<rparr>"

definition investigationA :: investigation where
  "investigationA = \<lparr>investigation_id = ''a'', title = ''A, edited'', globalParameters = JNull,
     items = [widget1, widget2], investigation_notes = []\<rparr>"

definition emptyInvestigation :: investigation where
  "emptyInvestigation = \<lparr>investigation_id = ''c'', title = ''New'', globalParameters = JNull,
     items = [], investigation_notes = []\<rparr>"

definition storedA :: investigation where
  "storedA = \<lparr>investigation_id = ''a'', title = ''A'', globalParameters = JNull,
     items = [widget1\<lparr>loading := None\<rparr>], investigation_notes = []\<rparr>"

definition storedB :: investigation where
  "storedB = \<lparr>investigation_id = ''b'', title = ''B'', globalParameters = JNull,
     items = [widget2\<lparr>loading := None\<rparr>], investigation_notes = []\<rparr>"

definition state0 :: "unit hook_state" where
  "state0 = \<lparr>investigationStore = (), investigations = [storedA, storedB],
     errorDialogs = [], v4_calls = 0\<rparr>"

definition component1 :: component where
  "component1 = \<lparr>component_id = ''w1'', component_definition = None\<rparr>"

definition snapshot2 :: investigation where
  "snapshot2 = \<lparr>investigation_id = ''a'', title = ''A'', globalParameters = JNull,
     items = [widget2], investigation_notes = []\<rparr>"

definition quotaExceeded :: exception where
  "quotaExceeded = Exception ''QuotaExceededError''"





section \<open>The bound of the JSON reader\<close>

text \<open>
  Each reader returns a text shorter than the one it was given, and a reader that
  succeeds with some bound succeeds, with the same result, with every bound from the
  number of characters it consumed.
\<close>

lemma json_digits_length: "json_digits s = (ds, t) \<Longrightarrow> length t \<le> length s"
  by (auto simp: json_digits_def length_dropWhile_le)

lemma json_digits_shorter: "json_digits s = (ds, t) \<Longrightarrow> ds \<noteq> [] \<Longrightarrow> length t < length s"
  by (cases s) (auto simp: json_digits_def intro: le_imp_less_Suc length_dropWhile_le split: if_splits)

lemma json_fraction_length: "json_fraction s = Some (ds, t) \<Longrightarrow> length t \<le> length s"
  by (cases s) (auto simp: json_fraction_def split: if_splits prod.splits dest!: json_digits_length)

lemma json_exponent_length: "json_exponent s = Some (e, t) \<Longrightarrow> length t \<le> length s"
proof (cases s)
  case Nil
  then show "json_exponent s = Some (e, t) \<Longrightarrow> length t \<le> length s"
    by (simp add: json_exponent_def)
next
  case (Cons c cs)
  assume a: "json_exponent s = Some (e, t)"
  show "length t \<le> length s"
  proof (cases "c = CHR ''e'' \<or> c = CHR ''E''")
    case False
    then show ?thesis using a Cons by (simp add: json_exponent_def)
  next
    case True
    define r where "r = (if take 1 cs = ''-'' \<or> take 1 cs = ''+'' then drop 1 cs else cs)"
    obtain ds u where d: "json_digits r = (ds, u)" by (cases "json_digits r")
    have "t = u"
      using a Cons True d unfolding json_exponent_def Let_def r_def
      by (auto split: if_splits)
    moreover have "length r \<le> length cs" by (simp add: r_def)
    ultimately show ?thesis using json_digits_length [OF d] Cons by simp
  qed
qed

lemma json_number_shorter:
  assumes "json_number s = Some (v, t)"
  shows "length t < length s"
proof -
  define r where "r = (if take 1 s = ''-'' then drop 1 s else s)"
  obtain ds s2 where d: "json_digits r = (ds, s2)" by (cases "json_digits r")
  have ne: "ds \<noteq> []"
    using assms d unfolding json_number_def Let_def r_def [symmetric]
    by (auto split: if_splits)
  obtain fs s3 where f: "json_fraction s2 = Some (fs, s3)"
    using assms d ne unfolding json_number_def Let_def r_def [symmetric]
    by (auto split: if_splits option.splits)
  obtain e s4 where x: "json_exponent s3 = Some (e, s4)"
    using assms d ne f unfolding json_number_def Let_def r_def [symmetric]
    by (auto split: if_splits option.splits)
  have "t = s4"
    using assms d ne f x unfolding json_number_def Let_def r_def [symmetric]
    by (auto split: if_splits)
  moreover have "length r \<le> length s" by (simp add: r_def)
  ultimately show ?thesis
    using json_digits_shorter [OF d ne] json_fraction_length [OF f] json_exponent_length [OF x]
    by simp
qed

lemma json_literal_shorter: "json_literal s = Some (v, t) \<Longrightarrow> length t < length s"
  by (cases s) (auto simp: json_literal_def split: if_splits)

lemma json_string_shorter: "json_string s = Some (str, t) \<Longrightarrow> length t < length s"
proof (induction s arbitrary: str t rule: json_string.induct)
  case 1
  then show ?case by simp
next
  case (2 c cs)
  show ?case
  proof (cases "c = CHR 0x22")
    case True
    then show ?thesis using "2.prems" by simp
  next
    case quote: False
    show ?thesis
    proof (cases "c = CHR 0x5C")
      case False
      then show ?thesis
        using quote "2.prems" "2.IH"(3) by (fastforce split: if_splits)
    next
      case True
      then show ?thesis
        using quote "2.prems" "2.IH"(1,2)
        by (fastforce split: if_splits list.splits option.splits prod.splits)
    qed
  qed
qed

lemma skip_Cons: "dropWhile is_json_space s = c # cs \<Longrightarrow> length cs < length s"
  using length_dropWhile_le [of is_json_space s] by simp

lemma enough: "(0::nat) < k \<Longrightarrow> k \<le> n \<Longrightarrow> (\<And>n'. n = Suc n' \<Longrightarrow> k - 1 \<le> n' \<Longrightarrow> P) \<Longrightarrow> P"
  by (cases n) auto

lemma json_fuel:
  "(\<forall>s v t. json_value m s = Some (v, t) \<longrightarrow>
      length t < length s \<and> (\<forall>n. length s - length t \<le> n \<longrightarrow> json_value n s = Some (v, t)))
   \<and> (\<forall>s vs t. json_elements m s = Some (vs, t) \<longrightarrow>
      length t < length s \<and> (\<forall>n. length s - length t \<le> n \<longrightarrow> json_elements n s = Some (vs, t)))
   \<and> (\<forall>s ms t. json_members m s = Some (ms, t) \<longrightarrow>
      length t < length s \<and> (\<forall>n. length s - length t \<le> n \<longrightarrow> json_members n s = Some (ms, t)))"
proof (induction m)
  case 0
  show ?case by simp
next
  case (Suc m)
  note IH_value = Suc.IH [THEN conjunct1, rule_format]
  note IH_elements = Suc.IH [THEN conjunct2, THEN conjunct1, rule_format]
  note IH_members = Suc.IH [THEN conjunct2, THEN conjunct2, rule_format]
  have val: "length t < length s \<and> (\<forall>n. length s - length t \<le> n \<longrightarrow> json_value n s = Some (v, t))"
    if a: "json_value (Suc m) s = Some (v, t)" for s v t
  proof -
    obtain c cs where sk: "dropWhile is_json_space s = c # cs"
      using a by (cases "dropWhile is_json_space s") simp_all
    note len = skip_Cons [OF sk]
    show ?thesis
    proof (cases "c = CHR ''[''")
      case True
      obtain d ds where sk2: "dropWhile is_json_space cs = d # ds"
        using a sk True by (cases "dropWhile is_json_space cs") simp_all
      note len2 = skip_Cons [OF sk2]
      show ?thesis
      proof (cases "d = CHR '']''")
        case close: True
        have r: "v = JArray []" "t = ds"
          using a sk True sk2 close by simp_all
        have "json_value n s = Some (v, t)" if "length s - length t \<le> n" for n
          using that len len2 r sk True sk2 close by (cases n) simp_all
        then show ?thesis using len len2 r by simp
      next
        case False
        obtain vs where e: "json_elements m cs = Some (vs, t)" and r: "v = JArray vs"
          using a sk True sk2 False by (auto split: option.splits)
        note ih = IH_elements [OF e]
        have "json_value n s = Some (v, t)" if n: "length s - length t \<le> n" for n
        proof -
          have "0 < length s - length t" using ih len by simp
          then obtain n' where n': "n = Suc n'" "length s - length t - 1 \<le> n'"
            using n by (rule enough)
          then have "json_elements n' cs = Some (vs, t)"
            using ih len by simp
          then show ?thesis using n' sk True sk2 False r by simp
        qed
        then show ?thesis using ih len by simp
      qed
    next
      case not_array: False
      show ?thesis
      proof (cases "c = CHR ''{''")
        case True
        obtain d ds where sk2: "dropWhile is_json_space cs = d # ds"
          using a sk True not_array by (cases "dropWhile is_json_space cs") simp_all
        note len2 = skip_Cons [OF sk2]
        show ?thesis
        proof (cases "d = CHR ''}''")
          case close: True
          have r: "v = JObject []" "t = ds"
            using a sk True sk2 close by simp_all
          have "json_value n s = Some (v, t)" if "length s - length t \<le> n" for n
            using that len len2 r sk True sk2 close by (cases n) simp_all
          then show ?thesis using len len2 r by simp
        next
          case False
          obtain ms where e: "json_members m cs = Some (ms, t)"
            and r: "v = JObject (foldl (\<lambda>ps (k, v). set_property k v ps) [] ms)"
            using a sk True sk2 False by (auto split: option.splits)
          note ih = IH_members [OF e]
          have "json_value n s = Some (v, t)" if n: "length s - length t \<le> n" for n
          proof -
            have "0 < length s - length t" using ih len by simp
            then obtain n' where n': "n = Suc n'" "length s - length t - 1 \<le> n'"
              using n by (rule enough)
            then have "json_members n' cs = Some (ms, t)"
              using ih len by simp
            then show ?thesis using n' sk True sk2 False r by simp
          qed
          then show ?thesis using ih len by simp
        qed
      next
        case not_object: False
        have leaf: "length t < length (c # cs)
            \<and> (\<forall>n'. json_value (Suc n') s = Some (v, t))"
        proof (cases "c = CHR 0x22")
          case True
          then obtain str where "json_string cs = Some (str, t)" "v = JString str"
            using a sk not_array not_object by (auto split: option.splits)
          then show ?thesis
            using json_string_shorter [of cs str t] sk not_array not_object True by simp
        next
          case not_string: False
          show ?thesis
          proof (cases "c = CHR ''-'' \<or> is_digit c")
            case True
            then have "json_number (c # cs) = Some (v, t)"
              using a sk not_array not_object not_string by simp
            then show ?thesis
              using json_number_shorter [of "c # cs" v t] sk not_array not_object not_string True
              by simp
          next
            case False
            then have "json_literal (c # cs) = Some (v, t)"
              using a sk not_array not_object not_string by simp
            then show ?thesis
              using json_literal_shorter [of "c # cs" v t] sk not_array not_object not_string False
              by simp
          qed
        qed
        have "length (c # cs) \<le> length s"
          using length_dropWhile_le [of is_json_space s] sk by simp
        then have l: "length t < length s" using leaf by simp
        have "json_value n s = Some (v, t)" if "length s - length t \<le> n" for n
          using that l leaf by (cases n) simp_all
        then show ?thesis using l by simp
      qed
    qed
  qed
  have elements: "length t < length s
      \<and> (\<forall>n. length s - length t \<le> n \<longrightarrow> json_elements n s = Some (vs, t))"
    if a: "json_elements (Suc m) s = Some (vs, t)" for s vs t
  proof -
    obtain v t1 where v: "json_value m s = Some (v, t1)"
      using a by (auto split: option.splits)
    note ihv = IH_value [OF v]
    obtain c cs where sk: "dropWhile is_json_space t1 = c # cs"
      using a v by (cases "dropWhile is_json_space t1") simp_all
    note len = skip_Cons [OF sk]
    show ?thesis
    proof (cases "c = CHR '',''")
      case True
      obtain ws where e: "json_elements m cs = Some (ws, t)" and r: "vs = v # ws"
        using a v sk True by (auto split: option.splits)
      note ihe = IH_elements [OF e]
      have "json_elements n s = Some (vs, t)" if n: "length s - length t \<le> n" for n
      proof -
        have "0 < length s - length t" using ihe ihv len by simp
        then obtain n' where n': "n = Suc n'" "length s - length t - 1 \<le> n'"
          using n by (rule enough)
        then have "length s - length t1 \<le> n'" "length cs - length t \<le> n'"
          using ihe ihv len by linarith+
        then have "json_value n' s = Some (v, t1)" "json_elements n' cs = Some (ws, t)"
          using ihe ihv by blast+
        then show ?thesis using n' sk True r by simp
      qed
      then show ?thesis using ihe ihv len by simp
    next
      case False
      then have close: "c = CHR '']''" and r: "vs = [v]" "t = cs"
        using a v sk by (auto split: if_splits)
      have "json_elements n s = Some (vs, t)" if n: "length s - length t \<le> n" for n
      proof -
        have "0 < length s - length t" using ihv len r by simp
        then obtain n' where n': "n = Suc n'" "length s - length t - 1 \<le> n'"
          using n by (rule enough)
        then have "json_value n' s = Some (v, t1)"
          using ihv len r by simp
        then show ?thesis using n' sk close r by simp
      qed
      then show ?thesis using ihv len r by simp
    qed
  qed
  have members: "length t < length s
      \<and> (\<forall>n. length s - length t \<le> n \<longrightarrow> json_members n s = Some (ms, t))"
    if a: "json_members (Suc m) s = Some (ms, t)" for s ms t
  proof -
    obtain q qs where sq: "dropWhile is_json_space s = q # qs"
      using a by (cases "dropWhile is_json_space s") simp_all
    have q: "q = CHR 0x22"
      using a sq by (auto split: if_splits)
    obtain k t0 where k: "json_string qs = Some (k, t0)"
      using a sq q by (auto split: option.splits)
    obtain c cs where sc: "dropWhile is_json_space t0 = c # cs"
      using a sq q k by (cases "dropWhile is_json_space t0") simp_all
    have c: "c = CHR '':''"
      using a sq q k sc by (auto split: if_splits)
    obtain v t1 where v: "json_value m cs = Some (v, t1)"
      using a sq q k sc c by (auto split: option.splits)
    note ihv = IH_value [OF v]
    obtain d ds where sd: "dropWhile is_json_space t1 = d # ds"
      using a sq q k sc c v by (cases "dropWhile is_json_space t1") simp_all
    note lens = skip_Cons [OF sq] json_string_shorter [OF k] skip_Cons [OF sc] skip_Cons [OF sd]
    show ?thesis
    proof (cases "d = CHR '',''")
      case True
      obtain ns where e: "json_members m ds = Some (ns, t)" and r: "ms = (k, v) # ns"
        using a sq q k sc c v sd True by (auto split: option.splits)
      note ihm = IH_members [OF e]
      have "json_members n s = Some (ms, t)" if n: "length s - length t \<le> n" for n
      proof -
        have "0 < length s - length t" using ihm ihv lens by simp
        then obtain n' where n': "n = Suc n'" "length s - length t - 1 \<le> n'"
          using n by (rule enough)
        then have "length cs - length t1 \<le> n'" "length ds - length t \<le> n'"
          using ihm ihv lens by linarith+
        then have "json_value n' cs = Some (v, t1)" "json_members n' ds = Some (ns, t)"
          using ihm ihv by blast+
        then show ?thesis using n' sq q k sc c sd True r by simp
      qed
      then show ?thesis using ihm ihv lens by simp
    next
      case False
      then have close: "d = CHR ''}''" and r: "ms = [(k, v)]" "t = ds"
        using a sq q k sc c v sd by (auto split: if_splits)
      have "json_members n s = Some (ms, t)" if n: "length s - length t \<le> n" for n
      proof -
        have "0 < length s - length t" using ihv lens r by simp
        then obtain n' where n': "n = Suc n'" "length s - length t - 1 \<le> n'"
          using n by (rule enough)
        then have "json_value n' cs = Some (v, t1)"
          using ihv lens r by simp
        then show ?thesis using n' sq q k sc c sd close r by simp
      qed
      then show ?thesis using ihv lens r by simp
    qed
  qed
  from val elements members show ?case by blast
qed

text \<open>
  A value read with any bound is read with the bound \<open>JSON_parse\<close> uses: the bound
  is never what makes a text a syntax error.
\<close>

lemma json_value_fuel:
  assumes "json_value m s = Some (v, t)"
  shows "json_value (Suc (length s)) s = Some (v, t)"
  using json_fuel [of m, THEN conjunct1, rule_format, OF assms]
  by (simp del: json_value.simps)

lemma JSON_parse_fuel:
  assumes "json_value m s = Some (v, rest)"
  shows "JSON_parse s =
           (if dropWhile is_json_space rest = [] then Inr v else Inl (Exception ''SyntaxError''))"
  unfolding JSON_parse_def json_value_fuel [OF assms] by simp

section \<open>Properties of the render bindings\<close>

lemma dom_fold_delete: "dom (fold (\<lambda>id m. m(id := None)) ids m) = dom m - set ids"
  by (induction ids arbitrary: m) auto

lemma map_with_context_keys:
  "map_with_context defs its (byId, unused) = (res, (byId', unused')) \<Longrightarrow>
   dom byId' = dom byId \<union> set (map widget_id its)
   \<and> set unused' = set unused - set (map widget_id its)
   \<and> map item res = its"
proof (induction its arbitrary: byId unused res)
  case Nil
  then show ?case by simp
next
  case (Cons it rest)
  obtain first m1 u1 where step: "with_context defs it (byId, unused) = (first, (m1, u1))"
    by (metis prod.exhaust)
  obtain others where rest: "map_with_context defs rest (m1, u1) = (others, (byId', unused'))"
    and res: "res = first # others"
    using Cons.prems step by (auto split: prod.splits)
  have s1: "dom m1 = insert (widget_id it) (dom byId)" "u1 = removeAll (widget_id it) unused"
    "item first = it"
    using step by (auto simp: with_context_def Let_def split: option.splits)
  from Cons.IH [OF rest] s1 res show ?case
    by auto
qed

text \<open>
  A binding once in the cache is never replaced, and every item of the snapshot is
  given the binding the cache holds for its id: the cached one where there was one, a
  new one where there was none.
\<close>

lemma with_context_binding:
  assumes "with_context defs it (byId, unused) = (first, (byId', unused'))"
  shows "byId' (widget_id it) = Some (Component first)"
    and "byId k = Some c \<Longrightarrow> byId' k = Some c"
    and "byId (widget_id it) = Some c \<Longrightarrow> Component first = c \<and> byId' = byId"
    and "byId (widget_id it) = None \<Longrightarrow>
           Component first =
             \<lparr>component_id = widget_id it,
              component_definition = find (\<lambda>d. definition_type d = widget_type it) defs\<rparr>"
  using assms by (auto simp: with_context_def Let_def split: option.splits)

lemma map_with_context_bindings:
  "map_with_context defs its (byId, unused) = (res, (byId', unused')) \<Longrightarrow>
   (\<forall>k c. byId k = Some c \<longrightarrow> byId' k = Some c)
   \<and> list_all (\<lambda>r. byId' (widget_id (item r)) = Some (Component r)) res"
proof (induction its arbitrary: byId unused res)
  case Nil
  then show ?case by simp
next
  case (Cons it rest)
  obtain first m1 u1 where step: "with_context defs it (byId, unused) = (first, (m1, u1))"
    by (metis prod.exhaust)
  obtain others where rest: "map_with_context defs rest (m1, u1) = (others, (byId', unused'))"
    and res: "res = first # others"
    using Cons.prems step by (auto split: prod.splits)
  have "item first = it"
    using step by (auto simp: with_context_def Let_def split: option.splits)
  with Cons.IH [OF rest] with_context_binding(1,2) [OF step] res show ?case
    by auto
qed

text \<open>
  What the cache holds after a snapshot: the ids it held before and the ids of the
  snapshot's items. The only key that the final sweep can delete is \<^verbatim>\<open>current\<close>, the
  one name in \<^verbatim>\<open>Object.keys\<close> of the ref.
\<close>

lemma itemsWithContext_keys:
  "dom (current (snd (itemsWithContext defs investigation r))) =
     (dom (current r) \<union> set (map widget_id (case investigation of None \<Rightarrow> [] | Some i \<Rightarrow> items i)))
     - {id. id = ''current''
            \<and> id \<notin> set (map widget_id (case investigation of None \<Rightarrow> [] | Some i \<Rightarrow> items i))}"
proof -
  let ?its = "case investigation of None \<Rightarrow> [] | Some i \<Rightarrow> items i"
  obtain res byId unused where
    m: "map_with_context defs ?its (current r, [''current'']) = (res, (byId, unused))"
    by (metis prod.exhaust)
  from map_with_context_keys [OF m] m show ?thesis
    by (auto simp: itemsWithContext_def Object_keys_ref_def dom_fold_delete)
qed

text \<open>
  C1 (the code at a failing input). The cache holds a binding for \<open>w1\<close>; the snapshot's
  only item is \<open>w2\<close>. After the snapshot the cache holds both keys, not the item ids
  of the snapshot: the binding of \<open>w1\<close> is not evicted.
\<close>

theorem stale_binding_is_kept:
  "dom (current (snd (itemsWithContext [] (Some snapshot2) \<lparr>current = [''w1'' \<mapsto> component1]\<rparr>)))
     = {''w1'', ''w2''}
   \<and> set (map widget_id (items snapshot2)) = {''w2''}"
  by (auto simp: itemsWithContext_def Object_keys_ref_def snapshot2_def widget2_def
      with_context_def Let_def split: if_splits)

section \<open>Properties of addItem\<close>

text \<open>
  C8. The hook's addItem never rejects, whatever the store's addItem does. It draws
  the next UUID and hands it, with the payload, to the store (whose state afterwards is
  the one that call leaves); when the store's promise rejects with \<open>e\<close>, the error dialog
  "Failed to add widget" carrying \<open>e\<close> is shown, and otherwise no dialog is. The stored
  investigations are not touched.
\<close>

theorem addItem_never_rejects:
  "fst (addItem v4 store_addItem widget st) = Inr ()
   \<and> v4_calls (snd (addItem v4 store_addItem widget st)) = Suc (v4_calls st)
   \<and> investigationStore (snd (addItem v4 store_addItem widget st)) =
       snd (store_addItem (v4 (v4_calls st)) widget (investigationStore st))
   \<and> errorDialogs (snd (addItem v4 store_addItem widget st)) =
       (case fst (store_addItem (v4 (v4_calls st)) widget (investigationStore st)) of
          Inl e \<Rightarrow> errorDialogs st @ [\<lparr>dialog_title = ''Failed to add widget'', dialog_error = e\<rparr>]
        | Inr u \<Rightarrow> errorDialogs st)
   \<and> investigations (snd (addItem v4 store_addItem widget st)) = investigations st"
  by (cases "store_addItem (v4 (v4_calls st)) widget (investigationStore st)")
     (auto simp: addItem_def try_catch_eff_def showErrorDialog_def Let_def split: sum.splits)

section \<open>Properties of the persistence sync\<close>

lemma attempt_ok:
  "setInvestigations next = None \<Longrightarrow>
   attemptToStoreInvestigations setInvestigations next st = (Inr (), st\<lparr>investigations := next\<rparr>)"
  by (simp add: attemptToStoreInvestigations_def try_catch_eff_def setStoredItem_def)

lemma attempt_fails:
  "setInvestigations next = Some e \<Longrightarrow>
   attemptToStoreInvestigations setInvestigations next st =
     (Inr (), st\<lparr>errorDialogs := errorDialogs st @
        [\<lparr>dialog_title = ''Could not save investigations to local storage'', dialog_error = e\<rparr>]\<rparr>)"
  by (simp add: attemptToStoreInvestigations_def try_catch_eff_def setStoredItem_def
      showErrorDialog_def)

lemma attempt_returns: "fst (attemptToStoreInvestigations setInvestigations next st) = Inr ()"
  by (cases "setInvestigations next") (simp_all add: attempt_ok attempt_fails)

lemma hasStored_iff: "(find P xs = None) = (\<not> list_ex P xs)"
  by (induction xs) auto

text \<open>The state after a snapshot with items, when the write succeeds.\<close>

lemma subscriber_writes:
  assumes "items investigationFromStore \<noteq> []" and "\<forall>next. setInvestigations next = None"
  shows "investigation_subscriber setInvestigations investigationFromStore st =
           (Inr (), st\<lparr>investigations :=
              (if list_ex (\<lambda>s. investigation_id s = investigation_id investigationFromStore)
                    (investigations st)
               then rev (map (\<lambda>s. if investigation_id s = investigation_id investigationFromStore
                                   then toSerialize investigationFromStore else s)
                          (investigations st))
               else toSerialize investigationFromStore # rev (investigations st))\<rparr>)"
  using assms
  by (cases "list_ex (\<lambda>s. investigation_id s = investigation_id investigationFromStore)
               (investigations st)")
     (simp_all add: investigation_subscriber_def Let_def attempt_ok hasStored_iff)

lemma toSerialize_no_loading:
  "list_all (\<lambda>item. loading item = None) (items (toSerialize investigationFromStore))"
  by (simp add: toSerialize_def list_all_iff)

lemma toSerialize_id: "investigation_id (toSerialize i) = investigation_id i"
  by (simp add: toSerialize_def)

lemma state0_after_A:
  "investigation_subscriber (\<lambda>next. None) investigationA state0 =
     (Inr (), state0\<lparr>investigations := [storedB, toSerialize investigationA]\<rparr>)"
  by (simp add: investigation_subscriber_def Let_def attempt_ok state0_def storedA_def
      storedB_def investigationA_def)

text \<open>
  C5. A snapshot whose items sequence is empty makes the persistence sync write
  nothing: the callback returns with the state, and so the stored investigations list,
  exactly as it was, whatever the setter would have done.
\<close>

theorem subscriber_empty_items_no_write:
  "items investigationFromStore = [] \<Longrightarrow>
   investigation_subscriber setInvestigations investigationFromStore st = (Inr (), st)"
  by (simp add: investigation_subscriber_def)

theorem subscriber_empty_items_no_write_witness:
  "items emptyInvestigation = []
   \<and> investigation_subscriber (\<lambda>next. None) emptyInvestigation state0 = (Inr (), state0)
   \<and> investigations state0 = [storedA, storedB]"
proof -
  have h: "items emptyInvestigation = []"
    by (simp add: emptyInvestigation_def)
  from subscriber_empty_items_no_write [OF h, of "\<lambda>next. None" state0] h show ?thesis
    by (simp add: state0_def)
qed

text \<open>
  C6. When a snapshot with items is persisted, the form written for it is
  \<open>toSerialize\<close> of the snapshot: it is in the stored list, every stored entry with the
  snapshot's id is that form, and none of its items has a \<^verbatim>\<open>loading\<close> property, while
  the id, type and parameters of each item are those of the snapshot.
\<close>

theorem persisted_form_has_no_loading:
  assumes "items investigationFromStore \<noteq> []" and "\<forall>next. setInvestigations next = None"
  shows "\<exists>st'. investigation_subscriber setInvestigations investigationFromStore st = (Inr (), st')
           \<and> toSerialize investigationFromStore \<in> set (investigations st')
           \<and> (\<forall>stored \<in> set (investigations st').
                 investigation_id stored = investigation_id investigationFromStore \<longrightarrow>
                 stored = toSerialize investigationFromStore
                 \<and> list_all (\<lambda>item. loading item = None) (items stored))
           \<and> map (\<lambda>item. (widget_id item, widget_type item, parameters item))
                 (items (toSerialize investigationFromStore)) =
               map (\<lambda>item. (widget_id item, widget_type item, parameters item))
                 (items investigationFromStore)"
  unfolding subscriber_writes [OF assms]
  by (auto simp: list_ex_iff toSerialize_no_loading toSerialize_id)
     (simp_all add: toSerialize_def)

theorem persisted_form_has_no_loading_witness:
  "items investigationA \<noteq> []
   \<and> map loading (items investigationA) = [Some False, Some True]
   \<and> investigations (snd (investigation_subscriber (\<lambda>next. None) investigationA state0)) =
       [storedB, toSerialize investigationA]
   \<and> map loading (items (toSerialize investigationA)) = [None, None]"
proof -
  have h1: "items investigationA \<noteq> []"
    by (simp add: investigationA_def)
  have h2: "\<forall>next. (\<lambda>next. None :: exception option) (next :: investigation list) = None"
    by simp
  from persisted_form_has_no_loading [OF h1 h2, of state0] h1 show ?thesis
    by (simp add: state0_after_A) (simp add: toSerialize_def investigationA_def widget1_def widget2_def)
qed

text \<open>
  C7. The subscription callback returns normally whatever the setter does. A write
  that throws \<open>e\<close> is caught in \<open>attemptToStoreInvestigations\<close>, which shows the dialog
  "Could not save investigations to local storage" carrying \<open>e\<close> and returns; so a
  snapshot with items whose write throws leaves the callback with that dialog added
  and nothing else changed.
\<close>

theorem subscriber_never_throws:
  "fst (investigation_subscriber setInvestigations investigationFromStore st) = Inr ()
   \<and> (setInvestigations next = Some e \<longrightarrow>
        attemptToStoreInvestigations setInvestigations next st =
          (Inr (), st\<lparr>errorDialogs := errorDialogs st @
             [\<lparr>dialog_title = ''Could not save investigations to local storage'',
               dialog_error = e\<rparr>]\<rparr>))
   \<and> (items investigationFromStore \<noteq> [] \<and> (\<forall>next. setInvestigations next = Some e) \<longrightarrow>
        investigation_subscriber setInvestigations investigationFromStore st =
          (Inr (), st\<lparr>errorDialogs := errorDialogs st @
             [\<lparr>dialog_title = ''Could not save investigations to local storage'',
               dialog_error = e\<rparr>]\<rparr>))"
  by (simp add: investigation_subscriber_def Let_def attempt_returns attempt_fails)

theorem subscriber_never_throws_witness:
  "items investigationA \<noteq> []
   \<and> investigation_subscriber (\<lambda>next. Some quotaExceeded) investigationA state0 =
       (Inr (), state0\<lparr>errorDialogs :=
          [\<lparr>dialog_title = ''Could not save investigations to local storage'',
            dialog_error = quotaExceeded\<rparr>]\<rparr>)"
proof -
  have h1: "items investigationA \<noteq> []"
    by (simp add: investigationA_def)
  have h2: "\<forall>next. (\<lambda>next. Some quotaExceeded) (next :: investigation list) = Some quotaExceeded"
    by simp
  from subscriber_never_throws
         [of "\<lambda>next. Some quotaExceeded" investigationA state0 "[]" quotaExceeded] h1 h2
  show ?thesis
    by (simp add: state0_def)
qed




section \<open>Properties of parseLogsContent\<close>







text \<open>
  C3, as the claim states it, fails on its third input: the one-line array is
  unwrapped once, and what is left is an array whose one element is itself an array,
  which is no plain object. The result is the "not object" error.
\<close>

theorem nested_array_is_rejected:
  \<open>parseLogsContent JSON_parse JSON_stringify (Some ''[[{"a":1}]]'') =
     Inr \<lparr>error = Some NOT_OBJECT, isTruncated = None, logsSampleParsed = None\<rparr>\<close>
  by code_simp

text \<open>
  C3, amended. The two lines of the first input are parsed one by one and give two
  entries; the second input, one line holding an array, is parsed on that line and the
  array taken out of its wrapping, which gives two entries; the third input is
  unwrapped once in the same way, which leaves the array holding the array of one
  object, and is rejected with the "not object" error.
\<close>

theorem import_parsing_scenarios:
  \<open>Array_map JSON_parse (String_split CHR 0x0A ''{"a":1}\<newline>{"b":2}'') =
     Inr [JObject [(''a'', JNumber 1 0)], JObject [(''b'', JNumber 2 0)]]
   \<and> parseLogsContent JSON_parse JSON_stringify (Some ''{"a":1}\<newline>{"b":2}'') =
       Inr \<lparr>error = None, isTruncated = Some False,
            logsSampleParsed = Some [''{"a":1}'', ''{"b":2}'']\<rparr>
   \<and> parsedContent JSON_parse ''[{"a":1},{"b":2}]'' =
       Inr (JArray [JObject [(''a'', JNumber 1 0)], JObject [(''b'', JNumber 2 0)]])
   \<and> parseLogsContent JSON_parse JSON_stringify (Some ''[{"a":1},{"b":2}]'') =
       Inr \<lparr>error = None, isTruncated = Some False,
            logsSampleParsed = Some [''{"a":1}'', ''{"b":2}'']\<rparr>
   \<and> parsedContent JSON_parse ''[[{"a":1}]]'' =
       Inr (JArray [JArray [JObject [(''a'', JNumber 1 0)]]])
   \<and> error (projr (parseLogsContent JSON_parse JSON_stringify (Some ''[[{"a":1}]]''))) =
       Some NOT_OBJECT\<close>
  by code_simp




end
